theory Spec2Isabelle
  imports Main "HOL-Library.List_Lexorder" "HOL-Library.Sublist" "HOL-Library.AList"
begin

section \<open>Runes and strings\<close>

text \<open>
  The parser of package \<open>htl\<close> walks its input with \<open>for _, r := range rawInput\<close>, so all it
  ever sees is the sequence of Unicode code points of the input. A Go string is modelled by
  that sequence: a \<open>rune\<close> is a code point (a natural number), \<open>string(r)\<close> is the one-rune
  string \<open>[r]\<close>, \<open>s += t\<close> is \<open>s @ t\<close> and \<open>s == ""\<close> is \<open>s = []\<close>. Go compares strings
  bytewise; on UTF-8 that is the lexicographic order of the code points, which is the order
  of lists of naturals used here.
\<close>

type_synonym rune = nat
type_synonym gostring = "rune list"

text \<open>\<open>lit\<close> writes an ASCII literal as a Go string.\<close>

definition lit :: "string \<Rightarrow> gostring" where
  "lit s = map of_char s"

definition maxStackDepth :: nat where
  "maxStackDepth = 256"

definition openParenRune :: rune where
  "openParenRune = of_char CHR ''(''"

definition closeParenRune :: rune where
  "closeParenRune = of_char CHR '')''"

definition quoteRune :: rune where
  "quoteRune = of_char (CHR 0x22)"

definition escapingRune :: rune where
  "escapingRune = of_char (CHR 0x5C)"

definition keywordStartRune :: rune where
  "keywordStartRune = of_char CHR '':''"

definition commentStartRune :: rune where
  "commentStartRune = of_char CHR '';''"

definition newLineRune :: rune where
  "newLineRune = of_char (CHR 0x0A)"

text \<open>
  \<open>unicode.IsSpace\<close> of the Go standard library: below U+0100 the eight listed code points,
  above it the code points with the Unicode property White_Space.
\<close>

definition IsSpace :: "rune \<Rightarrow> bool" where
  "IsSpace r =
     (if r \<le> 0xFF
      then r = 0x09 \<or> r = 0x0A \<or> r = 0x0B \<or> r = 0x0C \<or> r = 0x0D \<or> r = 0x20
         \<or> r = 0x85 \<or> r = 0xA0
      else r = 0x1680 \<or> (0x2000 \<le> r \<and> r \<le> 0x200A) \<or> r = 0x2028 \<or> r = 0x2029
         \<or> r = 0x202F \<or> r = 0x205F \<or> r = 0x3000)"

section \<open>Escape tables\<close>

definition degenerateTags :: "gostring \<rightharpoonup> int" where
  "degenerateTags =
     map_of [(lit ''br'', 1), (lit ''hr'', 1), (lit ''link'', 1), (lit ''img'', 1),
             (lit ''meta'', 1)]"

definition htmlEscapeRuneMap :: "rune \<rightharpoonup> gostring" where
  "htmlEscapeRuneMap =
     map_of [(of_char CHR ''<'', lit ''&lt;''), (of_char CHR ''>'', lit ''&gt;''),
             (of_char CHR ''&'', lit ''&amp;''), (of_char (CHR 0x27), lit ''&apos;''),
             (of_char (CHR 0x22), lit ''&quot;'')]"

definition htmlEscapeRune :: "rune \<Rightarrow> gostring" where
  "htmlEscapeRune r = (case htmlEscapeRuneMap r of Some rs \<Rightarrow> rs | None \<Rightarrow> [r])"

definition backslashUnescapeThenHtmlEscape :: "rune \<Rightarrow> gostring" where
  "backslashUnescapeThenHtmlEscape r =
     (if r = of_char CHR ''f'' then [0x0C]
      else if r = of_char CHR ''n'' then [0x0A]
      else if r = of_char CHR ''r'' then [0x0D]
      else if r = of_char CHR ''t'' then [0x09]
      else if r = of_char CHR ''v'' then [0x0B]
      else htmlEscapeRune r)"

section \<open>The tree\<close>

datatype NodeType = ElementNode | TextNode

datatype Node =
  Node (kind: NodeType) (tag: gostring) (attr: "(gostring \<times> gostring) list")
       (content: "Node list")

definition NewNode :: "NodeType \<Rightarrow> gostring \<Rightarrow> Node" where
  "NewNode k t = Node k t [] []"

section \<open>Pointers into the tree\<close>

text \<open>
  The parser holds \<open>*Node\<close> pointers on its stack and mutates the nodes they point to, while
  the same nodes are reachable from their parents. The nodes live in a store \<open>nodes\<close>: the
  list of the trees that have no parent (in \<open>Parse\<close>: the synthetic root alone). A pointer
  is the path of child indices from the store to the node. A node never loses or reorders
  children, so a path keeps designating the same node.
\<close>

type_synonym ptr = "nat list"

fun deref :: "Node list \<Rightarrow> ptr \<Rightarrow> Node option" where
  "deref ns [] = None"
| "deref ns [i] = (if i < length ns then Some (ns ! i) else None)"
| "deref ns (i # j # js) =
     (if i < length ns then deref (content (ns ! i)) (j # js) else None)"

fun modify :: "(Node \<Rightarrow> Node) \<Rightarrow> ptr \<Rightarrow> Node list \<Rightarrow> Node list" where
  "modify f [] ns = ns"
| "modify f [i] ns = (if i < length ns then ns[i := f (ns ! i)] else ns)"
| "modify f (i # j # js) ns =
     (if i < length ns
      then ns[i := Node (kind (ns ! i)) (tag (ns ! i)) (attr (ns ! i))
                        (modify f (j # js) (content (ns ! i)))]
      else ns)"

definition setTag :: "gostring \<Rightarrow> Node \<Rightarrow> Node" where
  "setTag s n = Node (kind n) s (attr n) (content n)"

definition setAttr :: "gostring \<Rightarrow> gostring \<Rightarrow> Node \<Rightarrow> Node" where
  "setAttr k v n = Node (kind n) (tag n) (AList.update k v (attr n)) (content n)"

definition appendContent :: "Node \<Rightarrow> Node \<Rightarrow> Node" where
  "appendContent c n = Node (kind n) (tag n) (attr n) (content n @ [c])"

section \<open>The parse state\<close>

datatype contextType =
  contextDefault | contextTag | contextAfterTag | contextAttrKey | contextAfterAttrKey
| contextAttrValue | contextContent

record ParseState =
  pcontext :: contextType
  token :: gostring
  key :: gostring
  escapingBackslash :: bool
  stack :: "ptr list"
  nodes :: "Node list"

text \<open>
  An \<open>eatFn\<close> is one of the four functions below, or \<open>nil\<close> (\<open>None\<close>). A step returns the
  next \<open>eatFn\<close> and the state; the outer \<open>None\<close> is the panic of a nil dereference, which
  \<open>commit\<close> raises when the stack is empty.
\<close>

datatype eatFn = EatAir | EatSymbol | EatString | EatComment

definition error :: "ParseState \<Rightarrow> gostring \<Rightarrow> eatFn option \<times> ParseState" where
  "error ps s = (None, ps\<lparr>token := s\<rparr>)"

definition currentNode :: "ParseState \<Rightarrow> ptr option" where
  "currentNode ps =
     (if length (stack ps) = 0 then None else Some (stack ps ! (length (stack ps) - 1)))"

definition flushToken :: "ParseState \<Rightarrow> gostring \<times> ParseState" where
  "flushToken ps = (token ps, ps\<lparr>token := []\<rparr>)"

definition commit :: "ParseState \<Rightarrow> ParseState option" where
  "commit ps =
     (case pcontext ps of
        contextTag \<Rightarrow>
          (case currentNode ps of
             None \<Rightarrow> None
           | Some p \<Rightarrow>
               (case flushToken ps of
                  (s, ps') \<Rightarrow> Some (ps'\<lparr>nodes := modify (setTag s) p (nodes ps')\<rparr>)))
      | contextAttrKey \<Rightarrow>
          (case flushToken ps of (s, ps') \<Rightarrow> Some (ps'\<lparr>key := s\<rparr>))
      | contextAttrValue \<Rightarrow>
          (case currentNode ps of
             None \<Rightarrow> None
           | Some p \<Rightarrow>
               (case flushToken (ps\<lparr>key := []\<rparr>) of
                  (s, ps') \<Rightarrow>
                    Some (ps'\<lparr>nodes := modify (setAttr (key ps) s) p (nodes ps')\<rparr>)))
      | contextContent \<Rightarrow>
          (case currentNode ps of
             None \<Rightarrow> None
           | Some p \<Rightarrow>
               (case flushToken ps of
                  (s, ps') \<Rightarrow>
                    Some (ps'\<lparr>nodes :=
                            modify (appendContent (NewNode TextNode s)) p (nodes ps')\<rparr>)))
      | _ \<Rightarrow> Some ps)"

definition childCount :: "Node list \<Rightarrow> ptr \<Rightarrow> nat" where
  "childCount ns p = (case deref ns p of Some n \<Rightarrow> length (content n) | None \<Rightarrow> 0)"

definition push :: "ParseState \<Rightarrow> eatFn option \<times> ParseState" where
  "push ps =
     (let newNode = NewNode ElementNode [];
          parent = currentNode ps
      in if length (stack ps) \<ge> maxStackDepth then error ps (lit ''tree too deep'')
         else
           (case parent of
              None \<Rightarrow>
                (Some EatSymbol,
                 ps\<lparr>stack := stack ps @ [[length (nodes ps)]],
                    nodes := nodes ps @ [newNode],
                    pcontext := contextTag\<rparr>)
            | Some p \<Rightarrow>
                (Some EatSymbol,
                 ps\<lparr>stack := stack ps @ [p @ [childCount (nodes ps) p]],
                    nodes := modify (appendContent newNode) p (nodes ps),
                    pcontext := contextTag\<rparr>)))"

definition pop :: "ParseState \<Rightarrow> eatFn option \<times> ParseState" where
  "pop ps =
     (if length (stack ps) > 1
      then (Some EatAir,
            ps\<lparr>stack := take (length (stack ps) - 1) (stack ps),
               pcontext := contextDefault\<rparr>)
      else error ps (lit ''unexpected closing paren''))"

section \<open>The four eat functions\<close>

definition eatAir :: "rune \<Rightarrow> ParseState \<Rightarrow> (eatFn option \<times> ParseState) option" where
  "eatAir r ps =
     (if r = openParenRune then
        (if pcontext ps = contextAfterAttrKey
         then Some (error ps (lit ''unexpected open paren''))
         else Some (push ps))
      else if r = closeParenRune then
        (if pcontext ps = contextAfterAttrKey
         then Some (error ps (lit ''unexpected close paren''))
         else Some (pop ps))
      else if r = quoteRune then
        (if pcontext ps = contextAfterAttrKey
         then Some (Some EatString, ps\<lparr>pcontext := contextAttrValue\<rparr>)
         else Some (Some EatString, ps\<lparr>pcontext := contextContent\<rparr>))
      else if r = commentStartRune then Some (Some EatComment, ps)
      else if r = keywordStartRune then
        (if pcontext ps = contextAfterTag
         then Some (Some EatSymbol, ps\<lparr>pcontext := contextAttrKey\<rparr>)
         else Some (error ps (lit ''unexpect character'')))
      else if r = escapingRune then
        Some (error ps (lit ''backslash-escaping not allowed here''))
      else if IsSpace r then Some (Some EatAir, ps)
      else
        Some (Some EatSymbol,
              ps\<lparr>token := token ps @ [r],
                 pcontext := (if pcontext ps = contextAfterAttrKey then contextAttrValue
                              else contextContent)\<rparr>))"

definition eatSymbol :: "rune \<Rightarrow> ParseState \<Rightarrow> (eatFn option \<times> ParseState) option" where
  "eatSymbol r ps =
     (if r = openParenRune then
        (if pcontext ps = contextAttrKey
         then Some (error ps (lit ''unexpected open paren''))
         else (case commit ps of None \<Rightarrow> None | Some ps' \<Rightarrow> Some (push ps')))
      else if r = closeParenRune then
        (if pcontext ps = contextAttrKey
         then Some (error ps (lit ''unexpected close paren''))
         else (case commit ps of None \<Rightarrow> None | Some ps' \<Rightarrow> Some (pop ps')))
      else if r = quoteRune then
        (case commit ps of
           None \<Rightarrow> None
         | Some ps' \<Rightarrow>
             Some (Some EatString,
                   ps'\<lparr>pcontext := (if pcontext ps' = contextAttrKey then contextAttrValue
                                   else contextContent)\<rparr>))
      else if r = escapingRune then
        Some (error ps (lit ''backslash-escaping is not allowed here''))
      else if IsSpace r then
        (case commit ps of
           None \<Rightarrow> None
         | Some ps' \<Rightarrow>
             Some (Some EatAir,
                   ps'\<lparr>pcontext := (if pcontext ps' = contextAttrKey
                                   then contextAfterAttrKey else contextAfterTag)\<rparr>))
      else Some (Some EatSymbol, ps\<lparr>token := token ps @ [r]\<rparr>))"

definition eatString :: "rune \<Rightarrow> ParseState \<Rightarrow> (eatFn option \<times> ParseState) option" where
  "eatString r ps =
     (if escapingBackslash ps then
        Some (Some EatString,
              ps\<lparr>escapingBackslash := False,
                 token := token ps @ backslashUnescapeThenHtmlEscape r\<rparr>)
      else if r = quoteRune then
        (case commit ps of
           None \<Rightarrow> None
         | Some ps' \<Rightarrow>
             Some (Some EatAir,
                   ps'\<lparr>pcontext := (if pcontext ps' = contextAttrValue then contextAfterTag
                                   else contextDefault)\<rparr>))
      else if r = escapingRune then Some (Some EatString, ps\<lparr>escapingBackslash := True\<rparr>)
      else Some (Some EatString, ps\<lparr>token := token ps @ htmlEscapeRune r\<rparr>))"

definition eatComment :: "rune \<Rightarrow> ParseState \<Rightarrow> (eatFn option \<times> ParseState) option" where
  "eatComment r ps =
     (if r = newLineRune then Some (Some EatAir, ps) else Some (Some EatComment, ps))"

fun eat :: "eatFn \<Rightarrow> rune \<Rightarrow> ParseState \<Rightarrow> (eatFn option \<times> ParseState) option" where
  "eat EatAir r ps = eatAir r ps"
| "eat EatSymbol r ps = eatSymbol r ps"
| "eat EatString r ps = eatString r ps"
| "eat EatComment r ps = eatComment r ps"

section \<open>Parse\<close>

text \<open>
  The two errors \<open>Parse\<close> builds with \<open>fmt.Errorf\<close>, kept as the values that fill the format:
  the rune, line, column and staged diagnostic of a failed step, and the number of closing
  parentheses missing at the end of the input.
\<close>

datatype goerror = RuneError rune nat nat gostring | StackError nat

datatype loopResult = Finished eatFn ParseState | Failed goerror | Panicked

fun parseLoop :: "eatFn \<Rightarrow> ParseState \<Rightarrow> nat \<Rightarrow> nat \<Rightarrow> gostring \<Rightarrow> loopResult" where
  "parseLoop eater ps lineNumber columnNumber [] = Finished eater ps"
| "parseLoop eater ps lineNumber columnNumber (r # rs) =
     (case eat eater r ps of
        None \<Rightarrow> Panicked
      | Some (eater', ps') \<Rightarrow>
          (let lineNumber' = (if r = newLineRune then lineNumber + 1 else lineNumber);
               columnNumber' = (if r = newLineRune then 0 else columnNumber + 1)
           in case eater' of
                None \<Rightarrow> Failed (RuneError r lineNumber' columnNumber' (token ps'))
              | Some e \<Rightarrow> parseLoop e ps' lineNumber' columnNumber' rs))"

definition initialState :: ParseState where
  "initialState =
     \<lparr>pcontext = contextDefault, token = [], key = [], escapingBackslash = False,
      stack = [[0]], nodes = [NewNode ElementNode []]\<rparr>"

text \<open>
  \<open>Parse\<close> returns a pair \<open>(*Node, error)\<close>; \<open>None\<close> in a component is \<open>nil\<close>. The outer
  \<open>None\<close> is a panic (a nil dereference in a step, or \<open>ps.stack[0]\<close> on an empty stack).
\<close>

definition Parse :: "gostring \<Rightarrow> (Node option \<times> goerror option) option" where
  "Parse rawInput =
     (if rawInput = [] then Some (None, None)
      else
        (case parseLoop EatAir initialState 1 0 rawInput of
           Panicked \<Rightarrow> None
         | Failed e \<Rightarrow> Some (None, Some e)
         | Finished eater ps \<Rightarrow>
             (if length (stack ps) > 1
              then Some (None, Some (StackError (length (stack ps) - 1)))
              else (case stack ps of
                      [] \<Rightarrow> None
                    | p # _ \<Rightarrow> Some (deref (nodes ps) p, None)))))"

section \<open>The serializer\<close>

definition attrGet :: "(gostring \<times> gostring) list \<Rightarrow> gostring \<Rightarrow> gostring" where
  "attrGet a k = (case map_of a k of Some v \<Rightarrow> v | None \<Rightarrow> [])"

fun Node_String :: "Node \<Rightarrow> gostring" where
  "Node_String (Node k t a c) =
     (if k = TextNode then (if t = lit ''_'' then lit ''&nbsp;'' else t)
      else if k = ElementNode \<and> t = [] then
        foldl (\<lambda>s c'. s @ Node_String c') [] c
      else if k = ElementNode then
        (let s = lit ''<'' @ t;
             attrKeys = sort (map fst a);
             s = foldl (\<lambda>s k'. s @ lit '' '' @ k' @ lit ''='' @ [quoteRune] @ attrGet a k'
                                  @ [quoteRune]) s attrKeys
         in if length c = 0 then
              (if degenerateTags t \<noteq> None then s @ lit ''/>''
               else s @ lit ''></'' @ t @ lit ''>'')
            else
              foldl (\<lambda>s c'. s @ Node_String c') (s @ lit ''>'') c @ lit ''</'' @ t @ lit ''>'')
      else [])"

definition String :: "Node option \<Rightarrow> gostring" where
  "String t = (case t of None \<Rightarrow> [] | Some n \<Rightarrow> Node_String n)"

section \<open>Notions used to state the properties\<close>

text \<open>The text the serializer emits for one attribute key: a space, the key, \<open>="\<close>, the
  value, \<open>"\<close>.\<close>

definition attrString :: "(gostring \<times> gostring) list \<Rightarrow> gostring \<Rightarrow> gostring" where
  "attrString a k = lit '' '' @ k @ lit ''='' @ [quoteRune] @ attrGet a k @ [quoteRune]"

text \<open>What \<open>Parse\<close> sets up and every step keeps: the stack is not empty, holds at most
  \<open>maxStackDepth\<close> pointers, its bottom pointer designates the synthetic root, and the root
  is the only tree without a parent.\<close>

definition stackOK :: "ParseState \<Rightarrow> bool" where
  "stackOK ps =
     (stack ps \<noteq> [] \<and> length (stack ps) \<le> maxStackDepth \<and> hd (stack ps) = [0]
      \<and> length (nodes ps) = 1)"

text \<open>The runes that \<open>eatSymbol\<close> appends to a bare token: anything but a parenthesis, a
  double quote, a backslash or white space. The runes that start a bare token in \<open>eatAir\<close>:
  those, less the semicolon and the colon.\<close>

definition symbolRune :: "rune \<Rightarrow> bool" where
  "symbolRune r = (r \<noteq> 40 \<and> r \<noteq> 41 \<and> r \<noteq> 34 \<and> r \<noteq> 92 \<and> \<not> IsSpace r)"

definition symbolStart :: "rune \<Rightarrow> bool" where
  "symbolStart r = (symbolRune r \<and> r \<noteq> 59 \<and> r \<noteq> 58)"

text \<open>All the strings a tree holds: tags and text payloads, attribute keys and values.\<close>

fun nodeTexts :: "Node \<Rightarrow> gostring list" where
  "nodeTexts (Node k t a c) = t # map fst a @ map snd a @ concat (map nodeTexts c)"

definition allTexts :: "(gostring \<Rightarrow> bool) \<Rightarrow> Node \<Rightarrow> bool" where
  "allTexts P n = list_all P (nodeTexts n)"



text \<open>The parentheses of an input that are structure, not text: those met outside quoted
  strings and outside comments. \<open>lexMode\<close> follows the lexical mode through the input
  (between tokens, in a bare token, in a quoted string with or without an escape pending,
  in a comment), and \<open>structuralParens\<close> collects the parentheses met in the first two.\<close>

fun lexMode :: "eatFn \<times> bool \<Rightarrow> rune \<Rightarrow> eatFn \<times> bool" where
  "lexMode (EatString, esc) r =
     (if esc then (EatString, False)
      else if r = 34 then (EatAir, False)
      else if r = 92 then (EatString, True)
      else (EatString, False))"
| "lexMode (EatComment, esc) r = (if r = 10 then (EatAir, esc) else (EatComment, esc))"
| "lexMode (EatAir, esc) r =
     (if r = 40 then (EatSymbol, esc) else if r = 41 then (EatAir, esc)
      else if r = 34 then (EatString, esc) else if r = 59 then (EatComment, esc)
      else if IsSpace r then (EatAir, esc) else (EatSymbol, esc))"
| "lexMode (EatSymbol, esc) r =
     (if r = 40 then (EatSymbol, esc) else if r = 41 then (EatAir, esc)
      else if r = 34 then (EatString, esc)
      else if IsSpace r then (EatAir, esc) else (EatSymbol, esc))"

fun structuralParens :: "eatFn \<times> bool \<Rightarrow> gostring \<Rightarrow> gostring" where
  "structuralParens m [] = []"
| "structuralParens m (r # rs) =
     (if (fst m = EatAir \<or> fst m = EatSymbol) \<and> (r = 40 \<or> r = 41) then [r] else [])
     @ structuralParens (lexMode m r) rs"

text \<open>An attribute table is a Go map: in the association list that stands for it, no key
  occurs twice, in the node and in all its descendants.\<close>

fun distinctKeys :: "Node \<Rightarrow> bool" where
  "distinctKeys (Node k t a c) = (distinct (map fst a) \<and> list_all distinctKeys c)"

section \<open>The serializer: closing forms and attribute order\<close>

lemma foldl_append_concat: "foldl (\<lambda>s x. s @ g x) s xs = s @ concat (map g xs)"
  by (induction xs arbitrary: s) simp_all

lemma Node_String_element:
  "t \<noteq> [] \<Longrightarrow> Node_String (Node ElementNode t a c) =
     lit ''<'' @ t @ concat (map (attrString a) (sort (map fst a))) @
     (if c = [] then (if degenerateTags t \<noteq> None then lit ''/>'' else lit ''></'' @ t @ lit ''>'')
      else lit ''>'' @ concat (map Node_String c) @ lit ''</'' @ t @ lit ''>'')"
  by (simp add: foldl_append_concat attrString_def[abs_def] Let_def)

lemma degenerateTags_iff:
  "degenerateTags t \<noteq> None \<longleftrightarrow>
     t \<in> {lit ''br'', lit ''hr'', lit ''link'', lit ''img'', lit ''meta''}"
  by (simp add: degenerateTags_def)

lemma void_not_closed:
  "t \<in> {lit ''br'', lit ''hr'', lit ''link'', lit ''img'', lit ''meta''} \<Longrightarrow>
     \<not> suffix (lit ''</'' @ t @ lit ''>'') (x @ lit ''/>'')"
  by (auto simp add: lit_def suffix_def append_eq_append_conv2 Cons_eq_append_conv
        append_eq_Cons_conv)

lemma sort_distinct_keys:
  "distinct (map fst a) \<Longrightarrow> sort (map fst a) = sorted_list_of_set (dom (map_of a))"
  by (metis dom_map_of_conv_image_fst list.set_map sorted_list_of_set_sort_remdups
        distinct_remdups_id)

lemma attrGet_cong: "map_of a = map_of a' \<Longrightarrow> attrGet a = attrGet a'"
  by (simp add: attrGet_def fun_eq_iff)

lemma parse_br:
  "Parse (lit ''(br)'') =
     Some (Some (Node ElementNode [] [] [Node ElementNode (lit ''br'') [] []]), None)"
  by code_simp

lemma render_br:
  "String (Some (Node ElementNode [] [] [Node ElementNode (lit ''br'') [] []])) = lit ''<br/>''"
  by code_simp

lemma parse_a_href:
  "Parse (lit ''(a :href foo)'') =
     Some (Some (Node ElementNode [] []
                  [Node ElementNode (lit ''a'') [(lit ''href'', lit ''foo'')] []]), None)"
  by code_simp

lemma render_a_href:
  "String (Some (Node ElementNode [] []
                  [Node ElementNode (lit ''a'') [(lit ''href'', lit ''foo'')] []])) =
     lit ''<a href='' @ [quoteRune] @ lit ''foo'' @ [quoteRune] @ lit ''></a>''"
  by code_simp

lemma parse_nested_attrs:
  "Parse (lit ''(a :x 1 (b :z 2 :y 3 (c)))'') =
     Some (Some (Node ElementNode [] []
       [Node ElementNode (lit ''a'') [(lit ''x'', lit ''1'')]
         [Node ElementNode (lit ''b'') [(lit ''z'', lit ''2''), (lit ''y'', lit ''3'')]
           [Node ElementNode (lit ''c'') [] []]]]), None)"
  by code_simp

lemma render_nested_attrs:
  "String (Some (Node ElementNode [] []
       [Node ElementNode (lit ''a'') [(lit ''x'', lit ''1'')]
         [Node ElementNode (lit ''b'') [(lit ''z'', lit ''2''), (lit ''y'', lit ''3'')]
           [Node ElementNode (lit ''c'') [] []]]])) =
     lit ''<a x='' @ [quoteRune] @ lit ''1'' @ [quoteRune] @
     lit ''><b y='' @ [quoteRune] @ lit ''3'' @ [quoteRune] @
     lit '' z='' @ [quoteRune] @ lit ''2'' @ [quoteRune] @ lit ''><c></c></b></a>''"
  by code_simp

text \<open>
  Claim C5. An element with a non-empty tag and no children is closed with \<open>/>\<close> when its
  tag is one of \<open>br\<close>, \<open>hr\<close>, \<open>link\<close>, \<open>img\<close>, \<open>meta\<close>, and with \<open>></tag>\<close> otherwise;
  the self-closed text does not also end in the closing tag. \<open>(br)\<close> renders as
  \<open><br/>\<close> and \<open>(a :href foo)\<close> as \<open><a href="foo"></a>\<close>.
\<close>

theorem C5_childless_element:
  assumes "t \<noteq> []"
  shows "Node_String (Node ElementNode t a []) =
           lit ''<'' @ t @ concat (map (attrString a) (sort (map fst a))) @
           (if t \<in> {lit ''br'', lit ''hr'', lit ''link'', lit ''img'', lit ''meta''}
            then lit ''/>'' else lit ''></'' @ t @ lit ''>'')
       \<and> (t \<in> {lit ''br'', lit ''hr'', lit ''link'', lit ''img'', lit ''meta''} \<longrightarrow>
            \<not> suffix (lit ''</'' @ t @ lit ''>'') (Node_String (Node ElementNode t a [])))
       \<and> Parse (lit ''(br)'') =
           Some (Some (Node ElementNode [] [] [Node ElementNode (lit ''br'') [] []]), None)
       \<and> String (Some (Node ElementNode [] [] [Node ElementNode (lit ''br'') [] []])) =
           lit ''<br/>''
       \<and> Parse (lit ''(a :href foo)'') =
           Some (Some (Node ElementNode [] []
                  [Node ElementNode (lit ''a'') [(lit ''href'', lit ''foo'')] []]), None)
       \<and> String (Some (Node ElementNode [] []
                  [Node ElementNode (lit ''a'') [(lit ''href'', lit ''foo'')] []])) =
           lit ''<a href='' @ [quoteRune] @ lit ''foo'' @ [quoteRune] @ lit ''></a>''"
proof -
  have form: "Node_String (Node ElementNode t a []) =
           lit ''<'' @ t @ concat (map (attrString a) (sort (map fst a))) @
           (if t \<in> {lit ''br'', lit ''hr'', lit ''link'', lit ''img'', lit ''meta''}
            then lit ''/>'' else lit ''></'' @ t @ lit ''>'')"
  proof (cases "degenerateTags t \<noteq> None")
    case True
    then have "t \<in> {lit ''br'', lit ''hr'', lit ''link'', lit ''img'', lit ''meta''}"
      by (simp only: degenerateTags_iff)
    with True show ?thesis
      using Node_String_element [OF assms, of a "[]"] by (simp only: if_True refl simp_thms)
  next
    case False
    then have "t \<notin> {lit ''br'', lit ''hr'', lit ''link'', lit ''img'', lit ''meta''}"
      by (simp only: degenerateTags_iff not_False_eq_True)
    with False show ?thesis
      using Node_String_element [OF assms, of a "[]"]
      by (simp only: if_True if_False refl simp_thms)
  qed
  have excl: "\<not> suffix (lit ''</'' @ t @ lit ''>'') (Node_String (Node ElementNode t a []))"
    if v: "t \<in> {lit ''br'', lit ''hr'', lit ''link'', lit ''img'', lit ''meta''}"
  proof -
    have eq: "Node_String (Node ElementNode t a []) =
        (lit ''<'' @ t @ concat (map (attrString a) (sort (map fst a)))) @ lit ''/>''"
      using form v by (simp del: Node_String.simps)
    show ?thesis
      unfolding eq by (rule void_not_closed [OF v])
  qed
  show ?thesis
    using form excl parse_br render_br parse_a_href render_a_href by blast
qed

theorem C5_childless_element_witness:
  "lit ''br'' \<noteq> [] \<and> lit ''br'' \<in> {lit ''br'', lit ''hr'', lit ''link'', lit ''img'', lit ''meta''}
   \<and> Node_String (Node ElementNode (lit ''br'') [] []) = lit ''<br/>''
   \<and> \<not> suffix (lit ''</br>'') (Node_String (Node ElementNode (lit ''br'') [] []))"
proof -
  have h: "lit ''br'' \<noteq> []" by (simp add: lit_def)
  show ?thesis
    using C5_childless_element [OF h, of "[]"]
    by (simp add: lit_def suffix_to_prefix del: Node_String.simps)
qed

section \<open>Empty input\<close>

text \<open>
  Claim C7. \<open>Parse\<close> of the empty string returns neither a tree nor an error, \<open>String\<close> of
  an absent tree is the empty string, and so rendering the result of parsing the empty
  string gives the empty string.
\<close>

theorem C7_empty_input:
  "Parse [] = Some (None, None) \<and> String None = []
   \<and> map_option (\<lambda>res. String (fst res)) (Parse []) = Some []"
  by (simp add: Parse_def String_def)

section \<open>Single steps inside a quoted literal\<close>

text \<open>
  Claim C2. With the escape-pending flag set, \<open>eatString\<close> appends the resolution of the
  rune and clears the flag: \<open>f\<close>, \<open>n\<close>, \<open>r\<close>, \<open>t\<close>, \<open>v\<close> give form feed, newline, carriage
  return, tab and vertical tab; every other rune, backslash and double quote among them,
  goes through the HTML escape mapping.
\<close>

theorem C2_escape_pending:
  assumes "escapingBackslash ps"
  shows "eatString r ps =
           Some (Some EatString,
                 ps\<lparr>escapingBackslash := False,
                    token := token ps @
                      (if r = 102 then [12] else if r = 110 then [10]
                       else if r = 114 then [13] else if r = 116 then [9]
                       else if r = 118 then [11] else htmlEscapeRune r)\<rparr>)
       \<and> htmlEscapeRune r =
           (if r = 60 then lit ''&lt;'' else if r = 62 then lit ''&gt;''
            else if r = 38 then lit ''&amp;'' else if r = 39 then lit ''&apos;''
            else if r = 34 then lit ''&quot;'' else [r])
       \<and> htmlEscapeRune escapingRune = [escapingRune]
       \<and> htmlEscapeRune quoteRune = lit ''&quot;''"
  using assms
  by (simp add: eatString_def backslashUnescapeThenHtmlEscape_def htmlEscapeRune_def
        htmlEscapeRuneMap_def escapingRune_def quoteRune_def)

theorem C2_escape_pending_witness:
  "escapingBackslash (initialState\<lparr>escapingBackslash := True\<rparr>)
   \<and> eatString 110 (initialState\<lparr>escapingBackslash := True, token := [120]\<rparr>) =
       Some (Some EatString, initialState\<lparr>escapingBackslash := False, token := [120, 10]\<rparr>)
   \<and> eatString 92 (initialState\<lparr>escapingBackslash := True, token := [120]\<rparr>) =
       Some (Some EatString, initialState\<lparr>escapingBackslash := False, token := [120, 92]\<rparr>)"
  using C2_escape_pending [of "initialState\<lparr>escapingBackslash := True, token := [120]\<rparr>" 110]
        C2_escape_pending [of "initialState\<lparr>escapingBackslash := True, token := [120]\<rparr>" 92]
  by (simp add: htmlEscapeRune_def htmlEscapeRuneMap_def)

section \<open>Pointers, single steps and the loop\<close>

lemma length_modify [simp]: "length (modify f p ns) = length ns"
  by (induction f p ns rule: modify.induct) simp_all



lemma commit_Some: "stack ps \<noteq> [] \<Longrightarrow> \<exists>ps'. commit ps = Some ps'"
  by (simp add: commit_def currentNode_def flushToken_def split: contextType.split)

lemma commit_keeps:
  "commit ps = Some ps' \<Longrightarrow>
     stack ps' = stack ps \<and> pcontext ps' = pcontext ps
     \<and> escapingBackslash ps' = escapingBackslash ps \<and> length (nodes ps') = length (nodes ps)"
  by (auto simp add: commit_def currentNode_def flushToken_def split: contextType.splits if_splits)

lemma push_result:
  "push ps = (e, ps') \<Longrightarrow>
     (length (stack ps) \<ge> maxStackDepth \<and> e = None \<and> ps' = ps\<lparr>token := lit ''tree too deep''\<rparr>)
   \<or> (length (stack ps) < maxStackDepth \<and> e = Some EatSymbol \<and> pcontext ps' = contextTag
      \<and> token ps' = token ps \<and> key ps' = key ps \<and> escapingBackslash ps' = escapingBackslash ps
      \<and> (\<exists>q. stack ps' = stack ps @ [q])
      \<and> (stack ps \<noteq> [] \<longrightarrow> length (nodes ps') = length (nodes ps)))"
  by (auto simp add: push_def error_def currentNode_def Let_def split: if_splits option.splits)

lemma pop_result:
  "pop ps = (e, ps') \<Longrightarrow>
     (length (stack ps) \<le> 1 \<and> e = None \<and> ps' = ps\<lparr>token := lit ''unexpected closing paren''\<rparr>)
   \<or> (length (stack ps) > 1 \<and> e = Some EatAir \<and> pcontext ps' = contextDefault
      \<and> token ps' = token ps \<and> key ps' = key ps \<and> escapingBackslash ps' = escapingBackslash ps
      \<and> stack ps' = butlast (stack ps) \<and> nodes ps' = nodes ps)"
  by (auto simp add: pop_def error_def butlast_conv_take split: if_splits)

lemma eat_no_panic: "stack ps \<noteq> [] \<Longrightarrow> eat e r ps \<noteq> None"
  using commit_Some [of ps]
  by (cases e) (auto simp add: eatAir_def eatSymbol_def eatString_def eatComment_def)

lemma push_stackOK: "stackOK ps \<Longrightarrow> push ps = (Some e, ps') \<Longrightarrow> stackOK ps'"
  by (drule push_result) (auto simp add: stackOK_def)

lemma hd_butlast_long: "length xs > 1 \<Longrightarrow> hd (butlast xs) = hd xs \<and> butlast xs \<noteq> []"
  by (cases xs) auto

lemma pop_stackOK: "stackOK ps \<Longrightarrow> pop ps = (Some e, ps') \<Longrightarrow> stackOK ps'"
  by (drule pop_result) (auto simp add: stackOK_def hd_butlast_long)

lemma commit_stackOK: "stackOK ps \<Longrightarrow> commit ps = Some ps' \<Longrightarrow> stackOK ps'"
  by (drule commit_keeps) (simp add: stackOK_def)

lemma stackOK_upd [simp]:
  "stackOK (ps\<lparr>pcontext := c\<rparr>) = stackOK ps"
  "stackOK (ps\<lparr>token := t\<rparr>) = stackOK ps"
  "stackOK (ps\<lparr>key := k\<rparr>) = stackOK ps"
  "stackOK (ps\<lparr>escapingBackslash := b\<rparr>) = stackOK ps"
  by (simp_all add: stackOK_def)

lemma eat_stackOK: "stackOK ps \<Longrightarrow> eat e r ps = Some (Some e', ps') \<Longrightarrow> stackOK ps'"
  by (cases e)
     (auto simp add: eatAir_def eatSymbol_def eatString_def eatComment_def error_def
        split: if_splits option.splits
        dest: push_stackOK pop_stackOK commit_stackOK)

lemma parseLoop_invariant:
  assumes step: "\<And>pre e r ps e' ps'.
      I pre e ps \<Longrightarrow> r \<in> A \<Longrightarrow> eat e r ps = Some (Some e', ps') \<Longrightarrow> I (pre @ [r]) e' ps'"
  shows "I pre e ps \<Longrightarrow> set xs \<subseteq> A \<Longrightarrow> parseLoop e ps l c xs = Finished e' ps' \<Longrightarrow>
         I (pre @ xs) e' ps'"
proof (induction xs arbitrary: pre e ps l c)
  case Nil
  then show ?case by simp
next
  case (Cons r rs)
  from Cons.prems(3) obtain e1 ps1 where
    st: "eat e r ps = Some (Some e1, ps1)" and
    rest: "parseLoop e1 ps1 (if r = newLineRune then l + 1 else l)
             (if r = newLineRune then 0 else c + 1) rs = Finished e' ps'"
    by (auto simp add: Let_def split: option.splits prod.splits)
  have "I (pre @ [r]) e1 ps1"
    using step [OF Cons.prems(1) _ st] Cons.prems(2) by simp
  from Cons.IH [OF this _ rest] Cons.prems(2) show ?case by simp
qed

lemma parseLoop_stackOK:
  "stackOK ps \<Longrightarrow> parseLoop e ps l c xs = Finished e' ps' \<Longrightarrow> stackOK ps'"
  using parseLoop_invariant [where I = "\<lambda>pre e ps. stackOK ps" and A = UNIV and pre = "[]"]
  by (metis eat_stackOK subset_UNIV)

lemma parseLoop_no_panic: "stackOK ps \<Longrightarrow> parseLoop e ps l c xs \<noteq> Panicked"
proof (induction xs arbitrary: e ps l c)
  case Nil
  then show ?case by simp
next
  case (Cons r rs)
  then have "stack ps \<noteq> []" by (simp add: stackOK_def)
  from eat_no_panic [OF this, of e r] obtain e1 ps1 where st: "eat e r ps = Some (e1, ps1)"
    by (cases "eat e r ps") auto
  show ?case
  proof (cases e1)
    case None
    with st show ?thesis by (simp add: Let_def)
  next
    case (Some e2)
    with st Cons.prems have "stackOK ps1" by (auto dest: eat_stackOK)
    from Cons.IH [OF this] st Some show ?thesis by (simp add: Let_def)
  qed
qed

lemma initial_stackOK: "stackOK initialState"
  by (simp add: stackOK_def initialState_def maxStackDepth_def)







section \<open>The depth cap\<close>



section \<open>Unbalanced parentheses\<close>



lemma Parse_cases:
  assumes "xs \<noteq> []"
  shows "(\<exists>err. Parse xs = Some (None, Some err)) \<or>
         (\<exists>e ps. parseLoop EatAir initialState 1 0 xs = Finished e ps \<and> stack ps = [[0]]
            \<and> length (nodes ps) = 1 \<and> Parse xs = Some (Some (nodes ps ! 0), None))"
proof (cases "parseLoop EatAir initialState 1 0 xs")
  case (Finished e ps)
  from parseLoop_stackOK [OF initial_stackOK Finished] have ok: "stackOK ps" .
  show ?thesis
  proof (cases "length (stack ps) > 1")
    case True
    with Finished assms show ?thesis by (simp add: Parse_def)
  next
    case False
    with ok have "stack ps = [[0]]" by (cases "stack ps") (auto simp add: stackOK_def)
    with ok Finished assms show ?thesis by (simp add: Parse_def stackOK_def)
  qed
next
  case (Failed err)
  with assms show ?thesis by (simp add: Parse_def)
next
  case Panicked
  with parseLoop_no_panic [OF initial_stackOK] show ?thesis by blast
qed







lemma structuralParens_plain:
  "quoteRune \<notin> set xs \<Longrightarrow> commentStartRune \<notin> set xs \<Longrightarrow> fst m = EatAir \<or> fst m = EatSymbol \<Longrightarrow>
     structuralParens m xs = filter (\<lambda>r. r = 40 \<or> r = 41) xs"
proof (induction xs arbitrary: m)
  case Nil
  then show ?case by simp
next
  case (Cons r rs)
  from Cons.prems have "fst (lexMode m r) = EatAir \<or> fst (lexMode m r) = EatSymbol"
    by (cases m; cases "fst m") (auto simp add: quoteRune_def commentStartRune_def)
  from Cons.IH [OF _ _ this] Cons.prems show ?case by auto
qed









section \<open>Input that ends inside a quoted string\<close>






section \<open>A bare token outside any element\<close>

lemma symbolRune_not_newline: "symbolRune r \<Longrightarrow> r \<noteq> newLineRune"
  by (auto simp add: symbolRune_def newLineRune_def IsSpace_def)

lemma IsSpace_newline: "IsSpace newLineRune"
  by (simp add: IsSpace_def newLineRune_def)

lemma eatSymbol_symbolRune:
  "symbolRune r \<Longrightarrow> eatSymbol r ps = Some (Some EatSymbol, ps\<lparr>token := token ps @ [r]\<rparr>)"
  by (simp add: symbolRune_def eatSymbol_def openParenRune_def closeParenRune_def
        quoteRune_def escapingRune_def)

lemma eatAir_symbolStart:
  "symbolStart r \<Longrightarrow>
     eatAir r ps =
       Some (Some EatSymbol,
             ps\<lparr>token := token ps @ [r],
                pcontext := (if pcontext ps = contextAfterAttrKey then contextAttrValue
                             else contextContent)\<rparr>)"
  by (simp add: symbolStart_def symbolRune_def eatAir_def openParenRune_def closeParenRune_def
        quoteRune_def escapingRune_def commentStartRune_def keywordStartRune_def)

lemma symbol_run:
  "\<forall>x\<in>set rs. symbolRune x \<Longrightarrow>
     parseLoop EatSymbol ps l c (rs @ rest) =
     parseLoop EatSymbol (ps\<lparr>token := token ps @ rs\<rparr>) l (c + length rs) rest"
proof (induction rs arbitrary: ps c)
  case Nil
  then show ?case by simp
next
  case (Cons r rs)
  then have r: "symbolRune r" and rs: "\<forall>x\<in>set rs. symbolRune x" by simp_all
  show ?case
    using Cons.IH [OF rs, of "ps\<lparr>token := token ps @ [r]\<rparr>" "c + 1"]
      eatSymbol_symbolRune [OF r, of ps] symbolRune_not_newline [OF r]
    by simp
qed

lemma bare_token_alone:
  assumes "symbolStart r" "\<forall>x\<in>set rs. symbolRune x"
  shows "Parse (r # rs) = Some (Some (Node ElementNode [] [] []), None)"
proof -
  have nl: "r \<noteq> newLineRune"
    using assms(1) by (simp add: symbolStart_def symbolRune_not_newline)
  have "parseLoop EatAir initialState 1 0 (r # rs @ []) =
      Finished EatSymbol (initialState\<lparr>token := r # rs, pcontext := contextContent\<rparr>)"
    using eatAir_symbolStart [OF assms(1), of initialState] nl
    by (simp add: symbol_run [OF assms(2)] del: append_Nil2) (simp add: initialState_def)
  then show ?thesis
    by (simp add: Parse_def initialState_def NewNode_def)
qed

lemma bare_token_spaced:
  assumes "symbolStart r" "\<forall>x\<in>set rs. symbolRune x" "IsSpace s"
  shows "Parse (r # rs @ [s]) =
           Some (Some (Node ElementNode [] [] [Node TextNode (r # rs) [] []]), None)"
proof -
  have nl: "r \<noteq> newLineRune"
    using assms(1) by (simp add: symbolStart_def symbolRune_not_newline)
  have sp: "s \<noteq> openParenRune \<and> s \<noteq> closeParenRune \<and> s \<noteq> quoteRune \<and> s \<noteq> escapingRune"
    using assms(3)
    by (auto simp add: IsSpace_def openParenRune_def closeParenRune_def quoteRune_def
          escapingRune_def)
  have "parseLoop EatAir initialState 1 0 (r # rs @ [s]) =
      Finished EatAir
        (initialState\<lparr>nodes := [Node ElementNode [] [] [Node TextNode (r # rs) [] []]],
                      pcontext := contextAfterTag\<rparr>)"
    using eatAir_symbolStart [OF assms(1), of initialState] nl sp assms(3)
    by (simp add: symbol_run [OF assms(2)])
       (simp add: initialState_def eatSymbol_def commit_def currentNode_def flushToken_def
          appendContent_def NewNode_def IsSpace_newline)
  then show ?thesis
    by (simp add: Parse_def initialState_def)
qed

lemma render_text_root:
  "String (Some (Node ElementNode [] [] [Node TextNode t [] []])) =
     (if t = lit ''_'' then lit ''&nbsp;'' else t)"
  by (simp add: String_def)

lemma render_empty_root: "String (Some (Node ElementNode [] [] [])) = []"
  by (simp add: String_def)

text \<open>
  Claim C10 says that an input made of one bare token, such as \<open>hello\<close>, parses to the root
  with one Text child holding the token. The token is committed only by a step that ends
  it; when the input ends first, \<open>Parse\<close> returns the root as it is. For \<open>hello\<close> the root
  has no children and renders as the empty string.
\<close>

theorem C10_counterexample:
  "Parse (lit ''hello'') = Some (Some (Node ElementNode [] [] []), None)
   \<and> String (Some (Node ElementNode [] [] [])) = []"
  by code_simp

text \<open>
  Claim C10 as amended: for an input that is one bare token (a rune that starts a token in
  \<open>eatAir\<close>, then runes that \<open>eatSymbol\<close> appends), \<open>Parse\<close> succeeds and returns the
  synthetic root without children, which renders as the empty string. When white space
  follows the token, \<open>Parse\<close> returns the root with exactly one Text child holding the
  token, which renders as the token text with no markup, or as \<open>&nbsp;\<close> when the token
  is the single underscore.
\<close>

theorem C10_single_bare_token:
  assumes "symbolStart r" and "\<forall>x\<in>set rs. symbolRune x"
  shows "Parse (r # rs) = Some (Some (Node ElementNode [] [] []), None)
       \<and> String (Some (Node ElementNode [] [] [])) = []
       \<and> (\<forall>s. IsSpace s \<longrightarrow>
            Parse (r # rs @ [s]) =
              Some (Some (Node ElementNode [] [] [Node TextNode (r # rs) [] []]), None))
       \<and> String (Some (Node ElementNode [] [] [Node TextNode (r # rs) [] []])) =
           (if r # rs = lit ''_'' then lit ''&nbsp;'' else r # rs)"
  using bare_token_alone [OF assms] bare_token_spaced [OF assms] render_text_root [of "r # rs"]
    render_empty_root
  by blast

theorem C10_single_bare_token_witness:
  "symbolStart 104 \<and> list_all symbolRune (lit ''ello'') \<and> IsSpace 32
   \<and> Parse (lit ''hello'') = Some (Some (Node ElementNode [] [] []), None)
   \<and> Parse (lit ''hello '') =
       Some (Some (Node ElementNode [] [] [Node TextNode (lit ''hello'') [] []]), None)
   \<and> String (Some (Node ElementNode [] [] [Node TextNode (lit ''hello'') [] []])) = lit ''hello''"
proof -
  have h1: "symbolStart 104" by (simp add: symbolStart_def symbolRune_def IsSpace_def)
  have h2: "\<forall>x\<in>set (lit ''ello''). symbolRune x"
    by (simp add: lit_def symbolRune_def IsSpace_def)
  have h3: "IsSpace 32" by (simp add: IsSpace_def)
  show ?thesis
    using C10_single_bare_token [OF h1 h2] h1 h2 h3 by (simp add: lit_def list_all_iff)
qed

section \<open>Bare tokens and quoted literals\<close>

lemma allTexts_Node [simp]:
  "allTexts P (Node k t a c) =
     (P t \<and> (\<forall>x\<in>set a. P (fst x) \<and> P (snd x)) \<and> (\<forall>n\<in>set c. allTexts P n))"
  by (auto simp add: allTexts_def list_all_iff)


lemma list_all_update:
  "list_all Q ns \<Longrightarrow> Q x \<Longrightarrow> list_all Q (ns[i := x])"
  using set_update_subset_insert [of ns i x] by (auto simp add: list_all_iff)











































section \<open>Attribute tables of parsed trees and the order of rendering\<close>

lemma distinctKeys_modify:
  "(\<forall>n. distinctKeys n \<longrightarrow> distinctKeys (f n)) \<Longrightarrow> list_all distinctKeys ns \<Longrightarrow>
     list_all distinctKeys (modify f p ns)"
proof (induction f p ns rule: modify.induct)
  case (1 f ns)
  then show ?case by simp
next
  case (2 f i ns)
  then show ?case
    by (auto simp add: list_all_length nth_list_update)
next
  case (3 f i j js ns)
  show ?case
  proof (cases "i < length ns")
    case True
    with "3.prems" have n: "distinctKeys (ns ! i)" by (simp add: list_all_length)
    then have "list_all distinctKeys (content (ns ! i))"
      by (cases "ns ! i") simp
    from "3.IH" [OF True "3.prems"(1) this] n
    have "distinctKeys (Node (kind (ns ! i)) (tag (ns ! i)) (attr (ns ! i))
                        (modify f (j # js) (content (ns ! i))))"
      by (cases "ns ! i") simp
    with "3.prems" True show ?thesis
      by (simp add: list_all_update)
  next
    case False
    with "3.prems" show ?thesis by simp
  qed
qed

lemma distinctKeys_setTag: "distinctKeys n \<Longrightarrow> distinctKeys (setTag s n)"
  by (cases n) (simp add: setTag_def)

lemma distinctKeys_setAttr: "distinctKeys n \<Longrightarrow> distinctKeys (setAttr k v n)"
  by (cases n) (simp add: setAttr_def distinct_update)

lemma distinctKeys_appendContent:
  "distinctKeys c \<Longrightarrow> distinctKeys n \<Longrightarrow> distinctKeys (appendContent c n)"
  by (cases n) (simp add: appendContent_def)

lemma commit_distinctKeys:
  "commit ps = Some ps' \<Longrightarrow> list_all distinctKeys (nodes ps) \<Longrightarrow> list_all distinctKeys (nodes ps')"
  by (auto simp add: commit_def flushToken_def NewNode_def
        split: contextType.splits option.splits
        intro!: distinctKeys_modify distinctKeys_setTag distinctKeys_setAttr
          distinctKeys_appendContent)

lemma push_distinctKeys:
  "push ps = (Some e, ps') \<Longrightarrow> list_all distinctKeys (nodes ps) \<Longrightarrow> list_all distinctKeys (nodes ps')"
  by (auto simp add: push_def error_def Let_def NewNode_def
        split: if_splits option.splits
        intro!: distinctKeys_modify distinctKeys_appendContent)

lemma pop_distinctKeys:
  "pop ps = (Some e, ps') \<Longrightarrow> list_all distinctKeys (nodes ps) \<Longrightarrow> list_all distinctKeys (nodes ps')"
  by (auto simp add: pop_def error_def split: if_splits)

lemma eat_distinctKeys:
  assumes "list_all distinctKeys (nodes ps)" "eat e r ps = Some (Some e', ps')"
  shows "list_all distinctKeys (nodes ps')"
proof (cases e)
  case EatAir
  with assms show ?thesis
    by (auto simp add: eatAir_def error_def split: if_splits
          dest: push_distinctKeys pop_distinctKeys)
next
  case EatSymbol
  with assms show ?thesis
    by (auto simp add: eatSymbol_def error_def split: if_splits option.splits
          dest: push_distinctKeys pop_distinctKeys commit_distinctKeys)
next
  case EatString
  with assms show ?thesis
    by (auto simp add: eatString_def split: if_splits option.splits
          dest: commit_distinctKeys)
next
  case EatComment
  with assms show ?thesis
    by (auto simp add: eatComment_def split: if_splits)
qed

lemma parsed_distinctKeys:
  assumes "Parse xs = Some (Some t, None)"
  shows "distinctKeys t"
proof -
  from assms have ne: "xs \<noteq> []" by (auto simp add: Parse_def)
  from Parse_cases [OF ne] assms obtain e ps where
    run: "parseLoop EatAir initialState 1 0 xs = Finished e ps" and
    len: "length (nodes ps) = 1" and res: "t = nodes ps ! 0"
    by auto
  have "list_all distinctKeys (nodes ps)"
    using parseLoop_invariant [where I = "\<lambda>pre e ps. list_all distinctKeys (nodes ps)"
        and A = UNIV and pre = "[]" and e = EatAir and ps = initialState, OF _ _ _ run]
      eat_distinctKeys
    by (simp add: initialState_def NewNode_def)
  with len res show ?thesis by (simp add: list_all_length)
qed

text \<open>
  Claim C4. An element with a non-empty tag is rendered as \<open><tag\<close>, then one
  \<open>key="value"\<close> group per attribute key, the keys in strictly ascending lexicographic
  order, then the closing part. The attribute table is a Go map, which has no order of its
  own: two association lists that represent the same map (whatever the order of insertion)
  render to the same text. Every tree that \<open>Parse\<close> returns has such tables: no key
  occurs twice in a node. The tree parsed from \<open>(a :x 1 (b :z 2 :y 3 (c)))\<close> holds \<open>z\<close>
  before \<open>y\<close> and renders \<open>y\<close> before \<open>z\<close>.
\<close>

theorem C4_attributes_sorted:
  assumes "t \<noteq> []" and "distinct (map fst a)"
  shows "(\<exists>rest. Node_String (Node ElementNode t a c) =
            lit ''<'' @ t @ concat (map (attrString a) (sort (map fst a))) @ rest)
       \<and> sorted_wrt (<) (sort (map fst a))
       \<and> set (sort (map fst a)) = dom (map_of a)
       \<and> (\<forall>a'. distinct (map fst a') \<and> map_of a' = map_of a \<longrightarrow>
             Node_String (Node ElementNode t a' c) = Node_String (Node ElementNode t a c))
       \<and> (Parse xs = Some (Some root, None) \<longrightarrow> distinctKeys root)
       \<and> Parse (lit ''(a :x 1 (b :z 2 :y 3 (c)))'') =
           Some (Some (Node ElementNode [] []
             [Node ElementNode (lit ''a'') [(lit ''x'', lit ''1'')]
               [Node ElementNode (lit ''b'') [(lit ''z'', lit ''2''), (lit ''y'', lit ''3'')]
                 [Node ElementNode (lit ''c'') [] []]]]), None)
       \<and> String (Some (Node ElementNode [] []
             [Node ElementNode (lit ''a'') [(lit ''x'', lit ''1'')]
               [Node ElementNode (lit ''b'') [(lit ''z'', lit ''2''), (lit ''y'', lit ''3'')]
                 [Node ElementNode (lit ''c'') [] []]]])) =
           lit ''<a x='' @ [quoteRune] @ lit ''1'' @ [quoteRune] @
           lit ''><b y='' @ [quoteRune] @ lit ''3'' @ [quoteRune] @
           lit '' z='' @ [quoteRune] @ lit ''2'' @ [quoteRune] @ lit ''><c></c></b></a>''"
proof -
  have shape: "\<exists>rest. Node_String (Node ElementNode t a c) =
      lit ''<'' @ t @ concat (map (attrString a) (sort (map fst a))) @ rest"
    using assms(1) by (simp add: Node_String_element del: Node_String.simps)
  have asc: "sorted_wrt (<) (sort (map fst a))"
    using assms(2) by (simp add: strict_sorted_iff)
  have keys: "set (sort (map fst a)) = dom (map_of a)"
    by (simp add: dom_map_of_conv_image_fst)
  have indep: "Node_String (Node ElementNode t a' c) = Node_String (Node ElementNode t a c)"
    if "distinct (map fst a')" and "map_of a' = map_of a" for a'
  proof -
    have "sort (map fst a') = sort (map fst a)"
      using that assms(2) by (simp add: sort_distinct_keys)
    moreover have "attrString a' = attrString a"
      using attrGet_cong [OF that(2)] by (simp add: attrString_def fun_eq_iff)
    ultimately show ?thesis
      using assms(1) by (simp add: Node_String_element del: Node_String.simps)
  qed
  show ?thesis
    using shape asc keys indep parsed_distinctKeys [of xs root] parse_nested_attrs
      render_nested_attrs
    by blast
qed

theorem C4_attributes_sorted_witness:
  "lit ''b'' \<noteq> [] \<and> distinct (map fst [(lit ''z'', lit ''2''), (lit ''y'', lit ''3'')])
   \<and> distinct (map fst [(lit ''y'', lit ''3''), (lit ''z'', lit ''2'')])
   \<and> map_of [(lit ''y'', lit ''3''), (lit ''z'', lit ''2'')] =
       map_of [(lit ''z'', lit ''2''), (lit ''y'', lit ''3'')]
   \<and> sort (map fst [(lit ''z'', lit ''2''), (lit ''y'', lit ''3'')]) = [lit ''y'', lit ''z'']
   \<and> Node_String (Node ElementNode (lit ''b'') [(lit ''y'', lit ''3''), (lit ''z'', lit ''2'')] []) =
       Node_String (Node ElementNode (lit ''b'') [(lit ''z'', lit ''2''), (lit ''y'', lit ''3'')] [])
   \<and> Parse (lit ''(br)'') =
       Some (Some (Node ElementNode [] [] [Node ElementNode (lit ''br'') [] []]), None)
   \<and> distinctKeys (Node ElementNode [] [] [Node ElementNode (lit ''br'') [] []])"
proof -
  have h1: "lit ''b'' \<noteq> []" by (simp add: lit_def)
  have h2: "distinct (map fst [(lit ''z'', lit ''2''), (lit ''y'', lit ''3'')])"
    by (simp add: lit_def)
  have h3: "distinct (map fst [(lit ''y'', lit ''3''), (lit ''z'', lit ''2'')])"
    by (simp add: lit_def)
  have h4: "map_of [(lit ''y'', lit ''3''), (lit ''z'', lit ''2'')] =
            map_of [(lit ''z'', lit ''2''), (lit ''y'', lit ''3'')]"
    by (auto simp add: lit_def fun_eq_iff)
  have h5: "sort (map fst [(lit ''z'', lit ''2''), (lit ''y'', lit ''3'')]) = [lit ''y'', lit ''z'']"
    by (simp add: lit_def)
  show ?thesis
    using C4_attributes_sorted [OF h1 h2, of "[]" "lit ''(br)''"
        "Node ElementNode [] [] [Node ElementNode (lit ''br'') [] []]"]
      h1 h2 h3 h4 h5 parse_br
    by blast
qed

end
